theory Spec2Isabelle
  imports Main
begin

section \<open>Time values of the date library\<close>

text \<open>
  server.js never does date arithmetic by hand: it calls the date library (dayjs with
  its utc and timezone plugins).  An instant is modelled by its epoch value in
  milliseconds.  \<open>add_minute\<close> is \<^verbatim>\<open>x.add(n, 'minute')\<close>, \<open>diff_minute\<close> is
  \<^verbatim>\<open>x.diff(y, 'minute')\<close> (the difference in whole minutes, truncated towards zero),
  \<open>isBefore\<close> and \<open>isAfter\<close> are the strict comparisons of the library.  Parsing a
  wall-clock string in a zone and printing an instant as \<^verbatim>\<open>HH:mm\<close> in a zone belong to
  the library and its zone database; they are taken as the two fields of \<open>datelib\<close>.
  Only valid dates are modelled.
\<close>

type_synonym instant = int

definition add_minute :: "instant \<Rightarrow> int \<Rightarrow> instant" where
  "add_minute t n = t + n * 60000"

definition diff_minute :: "instant \<Rightarrow> instant \<Rightarrow> int" where
  "diff_minute a b =
     (let d = a - b in if d < 0 then - ((- d) div 60000) else d div 60000)"

definition isBefore :: "instant \<Rightarrow> instant \<Rightarrow> bool" where
  "isBefore a b = (a < b)"

definition isAfter :: "instant \<Rightarrow> instant \<Rightarrow> bool" where
  "isAfter a b = (a > b)"

record datelib =
  tz_parse :: "string \<Rightarrow> string \<Rightarrow> instant"
  format_HHmm :: "string \<Rightarrow> instant \<Rightarrow> string"

section \<open>Requests, responses and the calendar service\<close>

text \<open>
  A request body is a JSON object.  The model keeps its string members and its integer
  members, each by key; the handlers look members up by the keys written in server.js.
  A member that is absent is \<open>None\<close> (JavaScript's undefined), and only then does a
  destructuring default apply.  Members of another JSON type (null, booleans, fractions,
  arrays, objects), and a number where the handler expects text or the reverse, are
  not modelled.
\<close>

record json_body =
  strings :: "string \<rightharpoonup> string"
  numbers :: "string \<rightharpoonup> int"

text \<open>\<^verbatim>\<open>!x\<close> for a string member: undefined and the empty string are falsy.\<close>

definition falsy :: "string option \<Rightarrow> bool" where
  "falsy v = (case v of None \<Rightarrow> True | Some s \<Rightarrow> s = [])"

text \<open>\<^verbatim>\<open>x || d\<close> for a string member.\<close>

definition or_else :: "string option \<Rightarrow> string \<Rightarrow> string" where
  "or_else v d = (case v of None \<Rightarrow> d | Some s \<Rightarrow> if s = [] then d else s)"

datatype error = SyntaxError | AuthenticationError | UpstreamError | TypeError

type_synonym busy_interval = "instant \<times> instant"

record fb_request =
  timeMin :: instant
  timeMax :: instant
  timeZone :: string
  items :: "string list"

record fb_calendar =
  fb_busy :: "busy_interval list option"

text \<open>
  The answer to a free/busy query: the promise is rejected (transport or API failure),
  or it resolves with \<^verbatim>\<open>data.calendars\<close>, an object keyed by calendar id that may be
  missing from the answer.
\<close>

datatype fb_reply = FbRejected | FbResolved "(string \<rightharpoonup> fb_calendar) option"

record insert_request =
  ins_calendarId :: string
  summary :: string
  description :: string
  start_dateTime :: instant
  start_timeZone :: string
  end_dateTime :: instant
  end_timeZone :: string

datatype insert_reply = InsertRejected | InsertResolved "string option"

text \<open>
  The Calendar Service is outside the program.  Its answer may depend on the request and
  on how many calls the handler has issued before (the calendar can change between two
  calls).  Every call a handler issues is appended to its list of calls.
\<close>

record calendar_service =
  freebusy_query :: "nat \<Rightarrow> fb_request \<Rightarrow> fb_reply"
  events_insert :: "nat \<Rightarrow> insert_request \<Rightarrow> insert_reply"

datatype call = FreeBusyQuery fb_request | EventsInsert insert_request

datatype payload =
    ErrorBody string
  | AvailabilityBody bool "string list"
  | BookOk "string option"
  | BookFailed string

record http_response =
  status :: nat
  payload :: payload

section \<open>Credentials\<close>

text \<open>
  \<open>process_env\<close> is what the process reads once at startup and on each request: the
  environment variables, the two files beside server.js (\<open>None\<close> when the file does not
  exist), and the JSON parser (\<open>Inl SyntaxError\<close> when \<^verbatim>\<open>JSON.parse\<close> throws,
  \<open>Inr None\<close> when the text is the JSON value null).
\<close>

record tokens =
  refresh_token :: "string option"
  access_token :: "string option"

record app_credentials =
  client_id :: "string option"
  client_secret :: "string option"
  redirect_uris :: "string list option"

record credentials_file =
  installed :: "app_credentials option"
  web :: "app_credentials option"

record process_env =
  TIMEZONE :: string
  CREDENTIALS_JSON :: "string option"
  TOKENS_JSON :: "string option"
  OAUTH_REDIRECT_URI :: "string option"
  credentials_json_file :: "string option"
  tokens_json_file :: "string option"
  parse_credentials :: "string \<Rightarrow> error + credentials_file option"
  parse_tokens :: "string \<Rightarrow> error + tokens option"

record oauth2_client =
  oauth_client_id :: "string option"
  oauth_client_secret :: "string option"
  redirectUri :: string
  credentials :: tokens

definition readJsonFallback ::
  "(string \<Rightarrow> error + 'a option) \<Rightarrow> string option \<Rightarrow> string option \<Rightarrow> error + 'a option" where
  "readJsonFallback JSON_parse envValue file =
     (if \<not> falsy envValue then JSON_parse (or_else envValue [])
      else case file of
             Some txt \<Rightarrow> JSON_parse txt
           | None \<Rightarrow> Inr None)"

definition empty_app :: app_credentials where
  "empty_app = \<lparr>client_id = None, client_secret = None, redirect_uris = None\<rparr>"

definition empty_tokens :: tokens where
  "empty_tokens = \<lparr>refresh_token = None, access_token = None\<rparr>"

definition getOAuth2Client :: "process_env \<Rightarrow> error + oauth2_client" where
  "getOAuth2Client env =
     (case readJsonFallback (parse_credentials env) (CREDENTIALS_JSON env)
             (credentials_json_file env) of
        Inl e \<Rightarrow> Inl e
      | Inr c \<Rightarrow>
          let creds = (case c of None \<Rightarrow> \<lparr>installed = None, web = None\<rparr> | Some v \<Rightarrow> v);
              app = (case installed creds of
                       Some a \<Rightarrow> a
                     | None \<Rightarrow> (case web creds of Some a \<Rightarrow> a | None \<Rightarrow> empty_app));
              uri = (case redirect_uris app of
                       Some (u # us) \<Rightarrow>
                         if u \<noteq> [] then u
                         else or_else (OAUTH_REDIRECT_URI env)
                                ''http://localhost:3000/oauth2callback''
                     | _ \<Rightarrow> or_else (OAUTH_REDIRECT_URI env)
                              ''http://localhost:3000/oauth2callback'');
              oAuth2Client = \<lparr>oauth_client_id = client_id app,
                              oauth_client_secret = client_secret app,
                              redirectUri = uri, credentials = empty_tokens\<rparr>
          in case readJsonFallback (parse_tokens env) (TOKENS_JSON env)
                    (tokens_json_file env) of
               Inl e \<Rightarrow> Inl e
             | Inr None \<Rightarrow> Inr oAuth2Client
             | Inr (Some t) \<Rightarrow> Inr (oAuth2Client\<lparr>credentials := t\<rparr>))"

definition ensureAuthed :: "oauth2_client \<Rightarrow> error + unit" where
  "ensureAuthed oAuth2Client =
     (if falsy (refresh_token (credentials oAuth2Client)) then Inl AuthenticationError
      else Inr ())"

section \<open>POST /availability\<close>

text \<open>\<^verbatim>\<open>fb.data.calendars[calendarId]?.busy || []\<close>; reading a member of a missing
  \<^verbatim>\<open>calendars\<close> object throws.\<close>

definition busy_of :: "fb_reply \<Rightarrow> string \<Rightarrow> error + busy_interval list" where
  "busy_of r calendarId =
     (case r of
        FbRejected \<Rightarrow> Inl UpstreamError
      | FbResolved None \<Rightarrow> Inl TypeError
      | FbResolved (Some calendars) \<Rightarrow>
          (case calendars calendarId of
             None \<Rightarrow> Inr []
           | Some c \<Rightarrow> (case fb_busy c of None \<Rightarrow> Inr [] | Some b \<Rightarrow> Inr b)))"

text \<open>The values the forward scan closes over: the service, the library and the
  handler's constants.\<close>

record scan_env =
  cal :: calendar_service
  lib :: datelib
  calendarId :: string
  durationMin :: int
  tz :: string
  stepMin :: int
  maxSugs :: int
  start :: instant
  workStart :: instant
  workEnd :: instant

text \<open>
  The \<^verbatim>\<open>while (sug.length < maxSugs)\<close> loop of the handler.  Its state is the list
  \<open>sug\<close>, the cursor and the calls issued so far.  It ends with the list of suggestions
  (\<open>Inr\<close>), or with the error thrown by a query (\<open>Inl\<close>); a loop that never ends is the
  value \<open>None\<close>.
\<close>

partial_function (option) forward_scan ::
  "scan_env \<Rightarrow> string list \<Rightarrow> instant \<Rightarrow> call list \<Rightarrow> ((error + string list) \<times> call list) option" where
  "forward_scan E sug cursor calls =
     (if int (length sug) < maxSugs E then
        (let cursor' = add_minute cursor (stepMin E);
             s = cursor';
             e = add_minute s (durationMin E)
         in if isBefore s (workStart E) \<or> isAfter e (workEnd E) then Some (Inr sug, calls)
            else
              (let q = \<lparr>timeMin = s, timeMax = e, timeZone = tz E, items = [calendarId E]\<rparr>;
                   calls' = calls @ [FreeBusyQuery q]
               in case busy_of (freebusy_query (cal E) (length calls) q) (calendarId E) of
                    Inl err \<Rightarrow> Some (Inl err, calls')
                  | Inr b2 \<Rightarrow>
                      (let sug' = (if length b2 = 0 then sug @ [format_HHmm (lib E) (tz E) s]
                                   else sug)
                       in if diff_minute cursor' (start E) > 180 then Some (Inr sug', calls')
                          else forward_scan E sug' cursor' calls')))
      else Some (Inr sug, calls))"

declare forward_scan.simps [code]

text \<open>The destructuring of the request body, with its defaults.\<close>

definition num_or :: "json_body \<Rightarrow> string \<Rightarrow> int \<Rightarrow> int" where
  "num_or b k d = (case numbers b k of None \<Rightarrow> d | Some v \<Rightarrow> v)"

definition str_or :: "json_body \<Rightarrow> string \<Rightarrow> string \<Rightarrow> string" where
  "str_or b k d = (case strings b k of None \<Rightarrow> d | Some v \<Rightarrow> v)"

text \<open>The body of the handler's \<^verbatim>\<open>try\<close> block: \<open>Inl\<close> is a thrown error, \<open>Inr\<close> a
  response sent; both come with the calls issued.\<close>

definition availability_try ::
  "process_env \<Rightarrow> datelib \<Rightarrow> calendar_service \<Rightarrow> json_body \<Rightarrow>
     ((error + http_response) \<times> call list) option" where
  "availability_try env dl svc body =
     (let calendarId = strings body ''calendarId'';
          date = strings body ''date'';
          time = strings body ''time'';
          durationMin = num_or body ''durationMin'' 45;
          tz = str_or body ''tz'' (TIMEZONE env);
          horarioInicio = str_or body ''horarioInicio'' ''09:00'';
          horarioFin = str_or body ''horarioFin'' ''19:00'';
          stepMin = num_or body ''stepMin'' 15;
          maxSugs = num_or body ''maxSugs'' 3
      in if falsy calendarId \<or> falsy date \<or> falsy time
         then Some (Inr \<lparr>status = 400, payload = ErrorBody ''missing_fields''\<rparr>, [])
         else
           (case getOAuth2Client env of
              Inl e \<Rightarrow> Some (Inl e, [])
            | Inr auth \<Rightarrow>
                (case ensureAuthed auth of
                   Inl e \<Rightarrow> Some (Inl e, [])
                 | Inr _ \<Rightarrow>
                     (let cid = or_else calendarId [];
                          start = tz_parse dl (or_else date [] @ '' '' @ or_else time []) tz;
                          end = add_minute start durationMin;
                          q = \<lparr>timeMin = start, timeMax = end, timeZone = tz, items = [cid]\<rparr>
                      in case busy_of (freebusy_query svc 0 q) cid of
                           Inl e \<Rightarrow> Some (Inl e, [FreeBusyQuery q])
                         | Inr busy \<Rightarrow>
                             if length busy = 0
                             then Some (Inr \<lparr>status = 200,
                                             payload = AvailabilityBody True []\<rparr>,
                                        [FreeBusyQuery q])
                             else
                               (let workStart =
                                      tz_parse dl (or_else date [] @ '' '' @ horarioInicio) tz;
                                    workEnd =
                                      tz_parse dl (or_else date [] @ '' '' @ horarioFin) tz;
                                    E = \<lparr>cal = svc, lib = dl, calendarId = cid,
                                         durationMin = durationMin, tz = tz,
                                         stepMin = stepMin, maxSugs = maxSugs,
                                         start = start, workStart = workStart,
                                         workEnd = workEnd\<rparr>
                                in case forward_scan E [] start [FreeBusyQuery q] of
                                     None \<Rightarrow> None
                                   | Some (Inl e, calls) \<Rightarrow> Some (Inl e, calls)
                                   | Some (Inr sug, calls) \<Rightarrow>
                                       Some (Inr \<lparr>status = 200,
                                                  payload = AvailabilityBody False sug\<rparr>,
                                             calls))))))"

text \<open>The handler: a thrown error is caught at the request boundary and answered with
  status 500.\<close>

definition availability ::
  "process_env \<Rightarrow> datelib \<Rightarrow> calendar_service \<Rightarrow> json_body \<Rightarrow>
     (http_response \<times> call list) option" where
  "availability env dl svc body =
     (case availability_try env dl svc body of
        None \<Rightarrow> None
      | Some (Inl e, calls) \<Rightarrow>
          Some (\<lparr>status = 500, payload = ErrorBody ''availability_failed''\<rparr>, calls)
      | Some (Inr res, calls) \<Rightarrow> Some (res, calls))"

section \<open>POST /book\<close>

definition newline :: string where
  "newline = [CHR 0x0A]"

text \<open>The letter o with an acute accent of the status line, as its two UTF-8 bytes.\<close>

definition o_acute :: string where
  "o_acute = [CHR 0xC3, CHR 0xB3]"

definition book_try ::
  "process_env \<Rightarrow> datelib \<Rightarrow> calendar_service \<Rightarrow> json_body \<Rightarrow>
     (error + http_response) \<times> call list" where
  "book_try env dl svc body =
     (let calendarId = strings body ''calendarId'';
          date = strings body ''date'';
          time = strings body ''time'';
          durationMin = num_or body ''durationMin'' 45;
          tz = str_or body ''tz'' (TIMEZONE env);
          nombre = strings body ''nombre'';
          tel = strings body ''tel'';
          servicio = strings body ''servicio'';
          barbero = strings body ''barbero'';
          nota = strings body ''nota'';
          code = strings body ''code''
      in if falsy calendarId \<or> falsy date \<or> falsy time
         then (Inr \<lparr>status = 400, payload = ErrorBody ''missing_fields''\<rparr>, [])
         else
           (case getOAuth2Client env of
              Inl e \<Rightarrow> (Inl e, [])
            | Inr auth \<Rightarrow>
                (case ensureAuthed auth of
                   Inl e \<Rightarrow> (Inl e, [])
                 | Inr _ \<Rightarrow>
                     (let start = tz_parse dl (or_else date [] @ '' '' @ or_else time []) tz;
                          end = add_minute start durationMin;
                          r = \<lparr>ins_calendarId = or_else calendarId [],
                               summary = or_else servicio ''Servicio'' @ '' - '' @
                                         or_else nombre ''Cliente'',
                               description =
                                 ''Cliente: '' @ or_else nombre [] @ newline @
                                 ''Tel: '' @ or_else tel [] @ newline @
                                 ''Servicio: '' @ or_else servicio [] @ newline @
                                 ''Barbero: '' @ or_else barbero [] @ newline @
                                 ''Nota: '' @ or_else nota [] @ newline @
                                 ''Code: '' @ or_else code [] @ newline @
                                 ''Estado: Pendiente de confirmaci'' @ o_acute @ ''n'' @
                                 newline @ ''Canal: WhatsApp'',
                               start_dateTime = start, start_timeZone = tz,
                               end_dateTime = end, end_timeZone = tz\<rparr>
                      in case events_insert svc 0 r of
                           InsertRejected \<Rightarrow> (Inl UpstreamError, [EventsInsert r])
                         | InsertResolved eventId \<Rightarrow>
                             (Inr \<lparr>status = 200, payload = BookOk eventId\<rparr>,
                              [EventsInsert r])))))"

definition book ::
  "process_env \<Rightarrow> datelib \<Rightarrow> calendar_service \<Rightarrow> json_body \<Rightarrow> http_response \<times> call list" where
  "book env dl svc body =
     (case book_try env dl svc body of
        (Inl e, calls) \<Rightarrow> (\<lparr>status = 500, payload = BookFailed ''booking_failed''\<rparr>, calls)
      | (Inr res, calls) \<Rightarrow> (res, calls))"

section \<open>Notions used to state the properties\<close>

text \<open>A free/busy answer that makes the handler throw.\<close>

definition query_fails :: "fb_reply \<Rightarrow> bool" where
  "query_fails r = (case r of FbRejected \<Rightarrow> True | FbResolved None \<Rightarrow> True | _ \<Rightarrow> False)"

text \<open>The request carries the three required members.\<close>

definition has_required :: "json_body \<Rightarrow> bool" where
  "has_required body =
     (\<not> falsy (strings body ''calendarId'') \<and> \<not> falsy (strings body ''date'') \<and>
      \<not> falsy (strings body ''time''))"

text \<open>The client built for the request passes \<open>ensureAuthed\<close>.\<close>

definition authed :: "process_env \<Rightarrow> bool" where
  "authed env =
     (case getOAuth2Client env of
        Inl e \<Rightarrow> False
      | Inr auth \<Rightarrow> \<not> falsy (refresh_token (credentials auth)))"

text \<open>The constants of the /availability handler for a request, as the handler computes
  them before its loop.\<close>

definition request_env ::
  "process_env \<Rightarrow> datelib \<Rightarrow> calendar_service \<Rightarrow> json_body \<Rightarrow> scan_env" where
  "request_env env dl svc body =
     \<lparr>cal = svc, lib = dl,
      calendarId = or_else (strings body ''calendarId'') [],
      durationMin = num_or body ''durationMin'' 45,
      tz = str_or body ''tz'' (TIMEZONE env),
      stepMin = num_or body ''stepMin'' 15,
      maxSugs = num_or body ''maxSugs'' 3,
      start = tz_parse dl (or_else (strings body ''date'') [] @ '' '' @
                or_else (strings body ''time'') []) (str_or body ''tz'' (TIMEZONE env)),
      workStart = tz_parse dl (or_else (strings body ''date'') [] @ '' '' @
                    str_or body ''horarioInicio'' ''09:00'') (str_or body ''tz'' (TIMEZONE env)),
      workEnd = tz_parse dl (or_else (strings body ''date'') [] @ '' '' @
                  str_or body ''horarioFin'' ''19:00'') (str_or body ''tz'' (TIMEZONE env))\<rparr>"

text \<open>The query for the primary slot.\<close>

definition primary_query :: "scan_env \<Rightarrow> fb_request" where
  "primary_query E =
     \<lparr>timeMin = start E, timeMax = add_minute (start E) (durationMin E),
      timeZone = tz E, items = [calendarId E]\<rparr>"

text \<open>The query the loop issues for the candidate that follows \<open>cursor\<close>.\<close>

definition candidate_query :: "scan_env \<Rightarrow> instant \<Rightarrow> fb_request" where
  "candidate_query E cursor =
     \<lparr>timeMin = add_minute cursor (stepMin E),
      timeMax = add_minute (add_minute cursor (stepMin E)) (durationMin E),
      timeZone = tz E, items = [calendarId E]\<rparr>"

text \<open>The candidate that follows \<open>cursor\<close> leaves the working hours.\<close>

definition out_of_hours :: "scan_env \<Rightarrow> instant \<Rightarrow> bool" where
  "out_of_hours E cursor =
     (isBefore (add_minute cursor (stepMin E)) (workStart E) \<or>
      isAfter (add_minute (add_minute cursor (stepMin E)) (durationMin E)) (workEnd E))"

text \<open>The list \<open>sug\<close> after the candidate that follows \<open>cursor\<close> was answered with \<open>b2\<close>.\<close>

definition pushed :: "scan_env \<Rightarrow> busy_interval list \<Rightarrow> string list \<Rightarrow> instant \<Rightarrow> string list" where
  "pushed E b2 sug cursor =
     (if length b2 = 0 then sug @ [format_HHmm (lib E) (tz E) (add_minute cursor (stepMin E))]
      else sug)"

text \<open>The event the /book handler asks the service to insert for a request.\<close>

definition booking_event :: "process_env \<Rightarrow> datelib \<Rightarrow> json_body \<Rightarrow> insert_request" where
  "booking_event env dl body =
     \<lparr>ins_calendarId = or_else (strings body ''calendarId'') [],
      summary = or_else (strings body ''servicio'') ''Servicio'' @ '' - '' @
                or_else (strings body ''nombre'') ''Cliente'',
      description =
        ''Cliente: '' @ or_else (strings body ''nombre'') [] @ newline @
        ''Tel: '' @ or_else (strings body ''tel'') [] @ newline @
        ''Servicio: '' @ or_else (strings body ''servicio'') [] @ newline @
        ''Barbero: '' @ or_else (strings body ''barbero'') [] @ newline @
        ''Nota: '' @ or_else (strings body ''nota'') [] @ newline @
        ''Code: '' @ or_else (strings body ''code'') [] @ newline @
        ''Estado: Pendiente de confirmaci'' @ o_acute @ ''n'' @
        newline @ ''Canal: WhatsApp'',
      start_dateTime =
        tz_parse dl (or_else (strings body ''date'') [] @ '' '' @
          or_else (strings body ''time'') []) (str_or body ''tz'' (TIMEZONE env)),
      start_timeZone = str_or body ''tz'' (TIMEZONE env),
      end_dateTime =
        add_minute
          (tz_parse dl (or_else (strings body ''date'') [] @ '' '' @
             or_else (strings body ''time'') []) (str_or body ''tz'' (TIMEZONE env)))
          (num_or body ''durationMin'' 45),
      end_timeZone = str_or body ''tz'' (TIMEZONE env)\<rparr>"


text \<open>The answer of /availability to a thrown error.\<close>

definition failed_500 :: http_response where
  "failed_500 = \<lparr>status = 500, payload = ErrorBody ''availability_failed''\<rparr>"

section \<open>Concrete requests\<close>

text \<open>
  A date library for the instants of one calendar day in a zone whose offset does not
  change that day: instants are counted from local midnight, a wall-clock string
  \<^verbatim>\<open>YYYY-MM-DD HH:mm\<close> is read at its time of day, and \<^verbatim>\<open>HH:mm\<close> prints it back.
\<close>

definition digit_of :: "char \<Rightarrow> int" where
  "digit_of c = of_char c - 48"

definition char_of_digit :: "int \<Rightarrow> char" where
  "char_of_digit n = char_of (48 + n)"

definition one_day_lib :: datelib where
  "one_day_lib =
     \<lparr>tz_parse = (\<lambda>s zone.
        case drop 11 s of
          [h1, h0, c, m1, m0] \<Rightarrow>
            ((digit_of h1 * 10 + digit_of h0) * 60 + digit_of m1 * 10 + digit_of m0) * 60000
        | _ \<Rightarrow> 0),
      format_HHmm = (\<lambda>zone t.
        let m = (t div 60000) mod 1440
        in [char_of_digit (m div 60 div 10), char_of_digit (m div 60 mod 10), CHR '':'',
            char_of_digit (m mod 60 div 10), char_of_digit (m mod 60 mod 10)])\<rparr>"

text \<open>A process whose token text parses to tokens with a refresh token, and one with
  neither a token variable nor a token file.\<close>

definition env_with_tokens :: process_env where
  "env_with_tokens =
     \<lparr>TIMEZONE = ''America/Costa_Rica'', CREDENTIALS_JSON = None,
      TOKENS_JSON = Some ''tokens'', OAUTH_REDIRECT_URI = None,
      credentials_json_file = None, tokens_json_file = None,
      parse_credentials = (\<lambda>txt. Inl SyntaxError),
      parse_tokens = (\<lambda>txt. if txt = ''tokens''
                            then Inr (Some \<lparr>refresh_token = Some ''1//r'',
                                             access_token = None\<rparr>)
                            else Inl SyntaxError)\<rparr>"

definition env_without_tokens :: process_env where
  "env_without_tokens = env_with_tokens\<lparr>TOKENS_JSON := None\<rparr>"

text \<open>A calendar that reports every queried window busy, but for the windows that start
  at one of the given instants; every insert resolves with the same event id.\<close>

definition busy_but :: "instant list \<Rightarrow> calendar_service" where
  "busy_but free =
     \<lparr>freebusy_query = (\<lambda>n q. FbResolved (Some (\<lambda>c.
          Some \<lparr>fb_busy = Some (if timeMin q \<in> set free then []
                                 else [(timeMin q, timeMax q)])\<rparr>))),
      events_insert = (\<lambda>n r. InsertResolved (Some ''evt1''))\<rparr>"

text \<open>The same calendar, but a query for a window that starts at one of the instants of
  \<open>bad\<close> is rejected.\<close>

definition rejecting_at :: "instant list \<Rightarrow> instant list \<Rightarrow> calendar_service" where
  "rejecting_at bad free =
     (busy_but free)\<lparr>freebusy_query :=
        (\<lambda>n q. if timeMin q \<in> set bad then FbRejected
                else freebusy_query (busy_but free) n q)\<rparr>"

definition hhmm :: "int \<Rightarrow> int \<Rightarrow> instant" where
  "hhmm h m = (h * 60 + m) * 60000"

definition body_of :: "(string \<times> string) list \<Rightarrow> (string \<times> int) list \<Rightarrow> json_body" where
  "body_of ss ns = \<lparr>strings = map_of ss, numbers = map_of ns\<rparr>"

section \<open>The forward scan, step by step\<close>

lemma diff_minute_le_180: "diff_minute a b \<le> 180 \<Longrightarrow> a - b < 181 * 60000"
  by (auto simp: diff_minute_def Let_def split: if_splits)

lemma scan_induct [consumes 1, case_names step]:
  assumes pos: "0 < stepMin E"
  assumes stp: "\<And>sug cursor calls.
     (\<And>sug' calls'. diff_minute (add_minute cursor (stepMin E)) (start E) \<le> 180
        \<Longrightarrow> P sug' (add_minute cursor (stepMin E)) calls')
     \<Longrightarrow> P sug cursor calls"
  shows "P sug cursor calls"
proof (induction "nat (181 * 60000 - (cursor - start E))" arbitrary: sug cursor calls
        rule: less_induct)
  case less
  show ?case
  proof (rule stp)
    fix sug' calls'
    assume d: "diff_minute (add_minute cursor (stepMin E)) (start E) \<le> 180"
    have "add_minute cursor (stepMin E) - start E < 181 * 60000"
      using diff_minute_le_180 [OF d] .
    moreover have "cursor < add_minute cursor (stepMin E)"
      using pos by (simp add: add_minute_def)
    ultimately have "nat (181 * 60000 - (add_minute cursor (stepMin E) - start E))
        < nat (181 * 60000 - (cursor - start E))"
      by linarith
    then show "P sug' (add_minute cursor (stepMin E)) calls'"
      by (rule less)
  qed
qed

lemma scan_cases [case_names finished outside failed capped continue]:
  obtains
    "\<not> int (length sug) < maxSugs E"
      "forward_scan E sug cursor calls = Some (Inr sug, calls)"
  | "int (length sug) < maxSugs E" "out_of_hours E cursor"
      "forward_scan E sug cursor calls = Some (Inr sug, calls)"
  | err where "int (length sug) < maxSugs E" "\<not> out_of_hours E cursor"
      "busy_of (freebusy_query (cal E) (length calls) (candidate_query E cursor))
         (calendarId E) = Inl err"
      "forward_scan E sug cursor calls =
         Some (Inl err, calls @ [FreeBusyQuery (candidate_query E cursor)])"
  | b2 where "int (length sug) < maxSugs E" "\<not> out_of_hours E cursor"
      "busy_of (freebusy_query (cal E) (length calls) (candidate_query E cursor))
         (calendarId E) = Inr b2"
      "diff_minute (add_minute cursor (stepMin E)) (start E) > 180"
      "forward_scan E sug cursor calls =
         Some (Inr (pushed E b2 sug cursor),
               calls @ [FreeBusyQuery (candidate_query E cursor)])"
  | b2 where "int (length sug) < maxSugs E" "\<not> out_of_hours E cursor"
      "busy_of (freebusy_query (cal E) (length calls) (candidate_query E cursor))
         (calendarId E) = Inr b2"
      "diff_minute (add_minute cursor (stepMin E)) (start E) \<le> 180"
      "forward_scan E sug cursor calls =
         forward_scan E (pushed E b2 sug cursor) (add_minute cursor (stepMin E))
           (calls @ [FreeBusyQuery (candidate_query E cursor)])"
proof -
  have eq: "forward_scan E sug cursor calls =
     (if int (length sug) < maxSugs E then
        if out_of_hours E cursor then Some (Inr sug, calls)
        else case busy_of (freebusy_query (cal E) (length calls) (candidate_query E cursor))
                    (calendarId E) of
               Inl err \<Rightarrow> Some (Inl err, calls @ [FreeBusyQuery (candidate_query E cursor)])
             | Inr b2 \<Rightarrow>
                 if diff_minute (add_minute cursor (stepMin E)) (start E) > 180
                 then Some (Inr (pushed E b2 sug cursor),
                            calls @ [FreeBusyQuery (candidate_query E cursor)])
                 else forward_scan E (pushed E b2 sug cursor) (add_minute cursor (stepMin E))
                        (calls @ [FreeBusyQuery (candidate_query E cursor)])
      else Some (Inr sug, calls))"
    by (subst forward_scan.simps)
       (auto simp: Let_def candidate_query_def out_of_hours_def pushed_def split: sum.splits)
  show thesis
  proof (cases "int (length sug) < maxSugs E")
    case False
    with eq that(1) show thesis by simp
  next
    case lt: True
    show thesis
    proof (cases "out_of_hours E cursor")
      case True
      with eq lt that(2) show thesis by simp
    next
      case inb: False
      show thesis
      proof (cases "busy_of (freebusy_query (cal E) (length calls) (candidate_query E cursor))
                    (calendarId E)")
        case (Inl err)
        with eq lt inb that(3) show thesis by simp
      next
        case (Inr b2)
        show thesis
        proof (cases "diff_minute (add_minute cursor (stepMin E)) (start E) > 180")
          case True
          with eq lt inb Inr that(4) show thesis by simp
        next
          case False
          with eq lt inb Inr that(5) show thesis by simp
        qed
      qed
    qed
  qed
qed

lemma forward_scan_terminates:
  assumes "0 < stepMin E"
  shows "\<exists>r. forward_scan E sug cursor calls = Some r"
  using assms
proof (induction sug cursor calls rule: scan_induct)
  case (step sug cursor calls)
  show ?case
  proof (cases rule: scan_cases [where E = E and sug = sug and cursor = cursor and calls = calls])
    case (continue b2)
    then show ?thesis using step by simp
  qed simp_all
qed


lemma scan_result_induct [consumes 1, case_names finished outside failed capped continue]:
  assumes run: "forward_scan E sug cursor calls = Some y"
  assumes fin: "\<And>sug cursor calls. \<not> int (length sug) < maxSugs E
      \<Longrightarrow> P sug cursor calls (Inr sug, calls)"
  assumes out: "\<And>sug cursor calls. int (length sug) < maxSugs E \<Longrightarrow> out_of_hours E cursor
      \<Longrightarrow> P sug cursor calls (Inr sug, calls)"
  assumes fail: "\<And>sug cursor calls err. int (length sug) < maxSugs E
      \<Longrightarrow> \<not> out_of_hours E cursor
      \<Longrightarrow> busy_of (freebusy_query (cal E) (length calls) (candidate_query E cursor))
            (calendarId E) = Inl err
      \<Longrightarrow> P sug cursor calls (Inl err, calls @ [FreeBusyQuery (candidate_query E cursor)])"
  assumes cap: "\<And>sug cursor calls b2. int (length sug) < maxSugs E
      \<Longrightarrow> \<not> out_of_hours E cursor
      \<Longrightarrow> busy_of (freebusy_query (cal E) (length calls) (candidate_query E cursor))
            (calendarId E) = Inr b2
      \<Longrightarrow> diff_minute (add_minute cursor (stepMin E)) (start E) > 180
      \<Longrightarrow> P sug cursor calls
            (Inr (pushed E b2 sug cursor), calls @ [FreeBusyQuery (candidate_query E cursor)])"
  assumes cont: "\<And>sug cursor calls b2 y. int (length sug) < maxSugs E
      \<Longrightarrow> \<not> out_of_hours E cursor
      \<Longrightarrow> busy_of (freebusy_query (cal E) (length calls) (candidate_query E cursor))
            (calendarId E) = Inr b2
      \<Longrightarrow> diff_minute (add_minute cursor (stepMin E)) (start E) \<le> 180
      \<Longrightarrow> forward_scan E (pushed E b2 sug cursor) (add_minute cursor (stepMin E))
            (calls @ [FreeBusyQuery (candidate_query E cursor)]) = Some y
      \<Longrightarrow> P (pushed E b2 sug cursor) (add_minute cursor (stepMin E))
            (calls @ [FreeBusyQuery (candidate_query E cursor)]) y
      \<Longrightarrow> P sug cursor calls y"
  shows "P sug cursor calls y"
proof -
  have "E = E \<and> forward_scan E sug cursor calls = Some y \<longrightarrow> P sug cursor calls y"
  proof (rule forward_scan.raw_induct
      [where P = "\<lambda>E' s c cs y. E' = E \<and> forward_scan E s c cs = Some y \<longrightarrow> P s c cs y",
       OF _ run], goal_cases)
    case (1 f E' sug cursor calls y)
    show ?case
    proof
      assume "E' = E \<and> forward_scan E sug cursor calls = Some y"
      then have E': "E' = E" and real: "forward_scan E sug cursor calls = Some y"
        by simp_all
      let ?q = "candidate_query E cursor"
      let ?calls = "calls @ [FreeBusyQuery ?q]"
      show "P sug cursor calls y"
      proof (cases rule: scan_cases [where E = E and sug = sug and cursor = cursor
                                     and calls = calls])
        case finished
        with real fin show ?thesis by auto
      next
        case outside
        with real out show ?thesis by auto
      next
        case (failed err)
        with real fail [OF failed(1-3)] show ?thesis by auto
      next
        case (capped b2)
        with real cap [OF capped(1-4)] show ?thesis by auto
      next
        case (continue b2)
        from continue(5) real
        have rec: "forward_scan E (pushed E b2 sug cursor) (add_minute cursor (stepMin E))
                     ?calls = Some y"
          by simp
        have "f E (pushed E b2 sug cursor) (add_minute cursor (stepMin E)) ?calls = Some y"
          using "1"(2) continue(1-4) unfolding E'
          by (auto simp: Let_def candidate_query_def out_of_hours_def pushed_def
                split: sum.splits if_splits)
        from "1"(1) [OF this] rec
        have ih: "P (pushed E b2 sug cursor) (add_minute cursor (stepMin E)) ?calls y"
          by simp
        show ?thesis
          by (rule cont [OF continue(1-4) rec ih])
      qed
    qed
  qed
  with run show ?thesis by simp
qed

lemma busy_of_fails: "(\<exists>e. busy_of r c = Inl e) \<longleftrightarrow> query_fails r"
  by (auto simp: busy_of_def query_fails_def split: fb_reply.splits option.splits)

lemma pushed_extends: "\<exists>more. pushed E b2 sug cursor = sug @ more"
  by (simp add: pushed_def)

lemma pushed_length: "length (pushed E b2 sug cursor) \<le> Suc (length sug)"
  by (simp add: pushed_def)

lemma scan_calls_extend:
  assumes "forward_scan E sug cursor calls = Some y"
  shows "\<exists>more. snd y = calls @ more"
  using assms
proof (induction rule: scan_result_induct)
  case (continue sug cursor calls b2 y)
  then show ?case by auto
qed simp_all

lemma scan_sug_extend:
  assumes "forward_scan E sug cursor calls = Some y"
  shows "\<forall>sug'. fst y = Inr sug' \<longrightarrow> (\<exists>more. sug' = sug @ more)"
  using assms
proof (induction rule: scan_result_induct)
  case (continue sug cursor calls b2 y)
  then show ?case using pushed_extends [of E b2 sug cursor] by auto
qed (simp_all add: pushed_extends)

lemma scan_length:
  assumes "forward_scan E sug cursor calls = Some y"
  shows "\<forall>sug'. fst y = Inr sug' \<longrightarrow> int (length sug') \<le> max (int (length sug)) (maxSugs E)"
  using assms
proof (induction rule: scan_result_induct)
  case (capped sug cursor calls b2)
  then show ?case using pushed_length [of E b2 sug cursor] by auto
next
  case (continue sug cursor calls b2 y)
  then show ?case using pushed_length [of E b2 sug cursor] by auto
qed simp_all

lemma scan_no_failure:
  assumes "forward_scan E sug cursor calls = Some y"
  shows "\<forall>sug'. fst y = Inr sug' \<longrightarrow>
           (\<forall>i q. length calls \<le> i \<longrightarrow> i < length (snd y) \<longrightarrow> snd y ! i = FreeBusyQuery q
              \<longrightarrow> \<not> query_fails (freebusy_query (cal E) i q))"
  using assms
proof (induction rule: scan_result_induct)
  case (capped sug cursor calls b2)
  have "\<not> query_fails (freebusy_query (cal E) (length calls) (candidate_query E cursor))"
    using capped(3) busy_of_fails by (metis sum.distinct(1))
  then show ?case by (auto simp: nth_append less_Suc_eq)
next
  case (continue sug cursor calls b2 y)
  have ok: "\<not> query_fails (freebusy_query (cal E) (length calls) (candidate_query E cursor))"
    using continue(3) busy_of_fails by (metis sum.distinct(1))
  obtain more where more: "snd y = (calls @ [FreeBusyQuery (candidate_query E cursor)]) @ more"
    using scan_calls_extend [OF continue(5)] by blast
  show ?case
  proof (intro allI impI)
    fix sug' i q
    assume a: "fst y = Inr sug'" "length calls \<le> i" "i < length (snd y)"
      "snd y ! i = FreeBusyQuery q"
    show "\<not> query_fails (freebusy_query (cal E) i q)"
    proof (cases "i = length calls")
      case True
      with a(4) more have "q = candidate_query E cursor" by (simp add: nth_append)
      with ok True show ?thesis by simp
    next
      case False
      with a(2) have "length (calls @ [FreeBusyQuery (candidate_query E cursor)]) \<le> i" by simp
      with continue(6) a show ?thesis by blast
    qed
  qed
qed simp_all











lemma availability_missing:
  assumes "\<not> has_required body"
  shows "availability env dl svc body =
           Some (\<lparr>status = 400, payload = ErrorBody ''missing_fields''\<rparr>, [])"
  using assms by (auto simp: availability_def availability_try_def has_required_def Let_def)

lemma availability_unauthed:
  assumes "has_required body" "\<not> authed env"
  shows "availability env dl svc body = Some (failed_500, [])"
  using assms
  by (auto simp: availability_def availability_try_def has_required_def authed_def
        ensureAuthed_def failed_500_def Let_def split: sum.splits)

lemma availability_authed:
  assumes "has_required body" "authed env"
  shows "availability env dl svc body =
     (case busy_of (freebusy_query svc 0 (primary_query (request_env env dl svc body)))
             (calendarId (request_env env dl svc body)) of
        Inl e \<Rightarrow>
          Some (failed_500, [FreeBusyQuery (primary_query (request_env env dl svc body))])
      | Inr busy \<Rightarrow>
          if busy = []
          then Some (\<lparr>status = 200, payload = AvailabilityBody True []\<rparr>,
                     [FreeBusyQuery (primary_query (request_env env dl svc body))])
          else (case forward_scan (request_env env dl svc body) []
                       (start (request_env env dl svc body))
                       [FreeBusyQuery (primary_query (request_env env dl svc body))] of
                  None \<Rightarrow> None
                | Some (Inl e, calls) \<Rightarrow> Some (failed_500, calls)
                | Some (Inr sug, calls) \<Rightarrow>
                    Some (\<lparr>status = 200, payload = AvailabilityBody False sug\<rparr>, calls)))"
proof -
  from assms(2) obtain auth where auth: "getOAuth2Client env = Inr auth"
      "ensureAuthed auth = Inr ()"
    by (auto simp: authed_def ensureAuthed_def split: sum.splits)
  have req: "\<not> (falsy (strings body ''calendarId'') \<or> falsy (strings body ''date'') \<or>
               falsy (strings body ''time''))"
    using assms(1) by (simp add: has_required_def)
  show ?thesis
    unfolding availability_def availability_try_def Let_def
    by (simp only: req if_False auth sum.case)
       (simp add: request_env_def primary_query_def failed_500_def
          split: sum.splits option.splits prod.splits)
qed

lemma availability_total:
  assumes "0 < num_or body ''stepMin'' 15"
  shows "\<exists>r. availability env dl svc body = Some r"
proof (cases "has_required body \<and> authed env")
  case False
  then show ?thesis
    using availability_missing [of body env dl svc] availability_unauthed [of body env dl svc]
    by auto
next
  case True
  have "0 < stepMin (request_env env dl svc body)"
    using assms by (simp add: request_env_def)
  from forward_scan_terminates [OF this]
  obtain r where "forward_scan (request_env env dl svc body) []
        (start (request_env env dl svc body))
        [FreeBusyQuery (primary_query (request_env env dl svc body))] = Some r"
    by blast
  with True show ?thesis
    by (simp add: availability_authed split: sum.splits prod.splits)
qed

lemma book_missing:
  assumes "\<not> has_required body"
  shows "book env dl svc body =
           (\<lparr>status = 400, payload = ErrorBody ''missing_fields''\<rparr>, [])"
  using assms by (auto simp: book_def book_try_def has_required_def Let_def)

lemma book_unauthed:
  assumes "has_required body" "\<not> authed env"
  shows "book env dl svc body =
           (\<lparr>status = 500, payload = BookFailed ''booking_failed''\<rparr>, [])"
  using assms
  by (auto simp: book_def book_try_def has_required_def authed_def
        ensureAuthed_def Let_def split: sum.splits)

lemma book_authed:
  assumes "has_required body" "authed env"
  shows "book env dl svc body =
     (case events_insert svc 0 (booking_event env dl body) of
        InsertRejected \<Rightarrow>
          (\<lparr>status = 500, payload = BookFailed ''booking_failed''\<rparr>,
           [EventsInsert (booking_event env dl body)])
      | InsertResolved eventId \<Rightarrow>
          (\<lparr>status = 200, payload = BookOk eventId\<rparr>,
           [EventsInsert (booking_event env dl body)]))"
proof -
  from assms(2) obtain auth where auth: "getOAuth2Client env = Inr auth"
      "ensureAuthed auth = Inr ()"
    by (auto simp: authed_def ensureAuthed_def split: sum.splits)
  have req: "\<not> (falsy (strings body ''calendarId'') \<or> falsy (strings body ''date'') \<or>
               falsy (strings body ''time''))"
    using assms(1) by (simp add: has_required_def)
  show ?thesis
    unfolding book_def book_try_def Let_def
    by (simp only: req if_False auth sum.case)
       (simp add: booking_event_def split: insert_reply.splits)
qed

section \<open>The claims\<close>

text \<open>
  C1.  When the free/busy query for the primary slot returns an empty busy list, the
  handler answers \<^verbatim>\<open>{disponible: true, sugerencias: []}\<close> at once: the query for the
  primary slot is the only call it issues.
\<close>

theorem primary_free_short_circuit:
  assumes "has_required body" and "authed env"
    and "busy_of (freebusy_query svc 0 (primary_query (request_env env dl svc body)))
           (calendarId (request_env env dl svc body)) = Inr []"
  shows "availability env dl svc body =
           Some (\<lparr>status = 200, payload = AvailabilityBody True []\<rparr>,
                 [FreeBusyQuery (primary_query (request_env env dl svc body))])"
  using assms by (simp add: availability_authed)

theorem primary_free_short_circuit_witness:
  "availability env_with_tokens one_day_lib (busy_but [hhmm 10 0])
     (body_of [(''calendarId'', ''barber1''), (''date'', ''2024-03-04''),
               (''time'', ''10:00'')] []) =
   Some (\<lparr>status = 200, payload = AvailabilityBody True []\<rparr>,
         [FreeBusyQuery \<lparr>timeMin = hhmm 10 0, timeMax = hhmm 10 45,
                          timeZone = ''America/Costa_Rica'', items = [''barber1'']\<rparr>])"
proof -
  let ?body = "body_of [(''calendarId'', ''barber1''), (''date'', ''2024-03-04''),
                        (''time'', ''10:00'')] []"
  let ?E = "request_env env_with_tokens one_day_lib (busy_but [hhmm 10 0]) ?body"
  have req: "has_required ?body" by code_simp
  have auth: "authed env_with_tokens" by code_simp
  have q: "primary_query ?E =
      \<lparr>timeMin = hhmm 10 0, timeMax = hhmm 10 45,
       timeZone = ''America/Costa_Rica'', items = [''barber1'']\<rparr>"
    by code_simp
  have free: "busy_of (freebusy_query (busy_but [hhmm 10 0]) 0 (primary_query ?E))
                (calendarId ?E) = Inr []"
    by code_simp
  show ?thesis
    using primary_free_short_circuit [OF req auth free] q by simp
qed

text \<open>
  C7.  A request to /availability without \<^verbatim>\<open>calendarId\<close>, \<^verbatim>\<open>date\<close> or
  \<^verbatim>\<open>time\<close> is answered with status 400 and \<^verbatim>\<open>{error: "missing_fields"}\<close>, and the
  handler issues no call: the check comes before the credentials are read.
\<close>

theorem missing_fields_rejected:
  assumes "falsy (strings body ''calendarId'') \<or> falsy (strings body ''date'') \<or>
           falsy (strings body ''time'')"
  shows "availability env dl svc body =
           Some (\<lparr>status = 400, payload = ErrorBody ''missing_fields''\<rparr>, [])"
  using assms by (intro availability_missing) (simp add: has_required_def)

theorem missing_fields_rejected_witness:
  "availability env_with_tokens one_day_lib (busy_but [])
     (body_of [(''date'', ''2024-03-04''), (''time'', ''10:00'')] []) =
   Some (\<lparr>status = 400, payload = ErrorBody ''missing_fields''\<rparr>, [])"
proof -
  have "falsy (strings (body_of [(''date'', ''2024-03-04''), (''time'', ''10:00'')] [])
                 ''calendarId'')"
    by code_simp
  then show ?thesis
    using missing_fields_rejected
      [of "body_of [(''date'', ''2024-03-04''), (''time'', ''10:00'')] []"
          env_with_tokens one_day_lib "busy_but []"]
    by simp
qed

text \<open>
  C10.  The working hours bound the alternatives only.  When the query for the primary
  slot returns an empty busy list, the answer is
  \<^verbatim>\<open>{disponible: true, sugerencias: []}\<close> also for a primary slot that starts before
  \<open>workStart\<close> or ends after \<open>workEnd\<close>.
\<close>

theorem primary_slot_outside_working_hours:
  assumes "has_required body" and "authed env"
    and "busy_of (freebusy_query svc 0 (primary_query (request_env env dl svc body)))
           (calendarId (request_env env dl svc body)) = Inr []"
    and "isBefore (start (request_env env dl svc body))
           (workStart (request_env env dl svc body)) \<or>
         isAfter (add_minute (start (request_env env dl svc body))
                    (durationMin (request_env env dl svc body)))
           (workEnd (request_env env dl svc body))"
  shows "map_option fst (availability env dl svc body) =
           Some \<lparr>status = 200, payload = AvailabilityBody True []\<rparr>"
  using assms(1-3) by (simp add: availability_authed)

theorem primary_slot_outside_working_hours_witness:
  "map_option fst
     (availability env_with_tokens one_day_lib (busy_but [hhmm 20 0])
        (body_of [(''calendarId'', ''barber1''), (''date'', ''2024-03-04''),
                  (''time'', ''20:00'')] [])) =
   Some \<lparr>status = 200, payload = AvailabilityBody True []\<rparr> \<and>
   workEnd (request_env env_with_tokens one_day_lib (busy_but [hhmm 20 0])
        (body_of [(''calendarId'', ''barber1''), (''date'', ''2024-03-04''),
                  (''time'', ''20:00'')] [])) = hhmm 19 0"
proof -
  let ?body = "body_of [(''calendarId'', ''barber1''), (''date'', ''2024-03-04''),
                        (''time'', ''20:00'')] []"
  let ?E = "request_env env_with_tokens one_day_lib (busy_but [hhmm 20 0]) ?body"
  have req: "has_required ?body" by code_simp
  have auth: "authed env_with_tokens" by code_simp
  have free: "busy_of (freebusy_query (busy_but [hhmm 20 0]) 0 (primary_query ?E))
                (calendarId ?E) = Inr []"
    by code_simp
  have out: "isBefore (start ?E) (workStart ?E) \<or>
             isAfter (add_minute (start ?E) (durationMin ?E)) (workEnd ?E)"
    by code_simp
  have we: "workEnd ?E = hhmm 19 0" by code_simp
  show ?thesis
    using primary_slot_outside_working_hours [OF req auth free out] we by simp
qed

text \<open>
  C6.  As stated the claim fails: a request without a required member is answered with
  status 400 before the credentials are looked at, also when there is no refresh token.
  For a request that carries \<^verbatim>\<open>calendarId\<close>, \<^verbatim>\<open>date\<close> and \<^verbatim>\<open>time\<close> it holds: without a
  refresh token both handlers answer with status 500 and issue no call, and
  \<open>ensureAuthed\<close> is what throws when the client could be built.
\<close>

theorem unauthenticated_missing_fields_is_400:
  "\<not> authed env_without_tokens \<and>
   availability env_without_tokens one_day_lib (busy_but [])
     (body_of [(''date'', ''2024-03-04''), (''time'', ''10:00'')] []) =
   Some (\<lparr>status = 400, payload = ErrorBody ''missing_fields''\<rparr>, []) \<and>
   book env_without_tokens one_day_lib (busy_but [])
     (body_of [(''date'', ''2024-03-04''), (''time'', ''10:00'')] []) =
   (\<lparr>status = 400, payload = ErrorBody ''missing_fields''\<rparr>, [])"
  by code_simp

theorem unauthenticated_request_is_500:
  assumes "has_required body" and "\<not> authed env"
  shows "availability env dl svc body =
           Some (\<lparr>status = 500, payload = ErrorBody ''availability_failed''\<rparr>, []) \<and>
         book env dl svc body =
           (\<lparr>status = 500, payload = BookFailed ''booking_failed''\<rparr>, []) \<and>
         (\<forall>auth. getOAuth2Client env = Inr auth \<longrightarrow>
            ensureAuthed auth = Inl AuthenticationError)"
proof -
  have "\<forall>auth. getOAuth2Client env = Inr auth \<longrightarrow> ensureAuthed auth = Inl AuthenticationError"
    using assms(2) by (auto simp: authed_def ensureAuthed_def)
  then show ?thesis
    using availability_unauthed [OF assms] book_unauthed [OF assms]
    by (simp add: failed_500_def)
qed

theorem unauthenticated_request_is_500_witness:
  "availability env_without_tokens one_day_lib (busy_but [])
     (body_of [(''calendarId'', ''barber1''), (''date'', ''2024-03-04''),
               (''time'', ''10:00'')] []) =
     Some (\<lparr>status = 500, payload = ErrorBody ''availability_failed''\<rparr>, []) \<and>
   book env_without_tokens one_day_lib (busy_but [])
     (body_of [(''calendarId'', ''barber1''), (''date'', ''2024-03-04''),
               (''time'', ''10:00'')] []) =
     (\<lparr>status = 500, payload = BookFailed ''booking_failed''\<rparr>, [])"
proof -
  let ?body = "body_of [(''calendarId'', ''barber1''), (''date'', ''2024-03-04''),
                        (''time'', ''10:00'')] []"
  have req: "has_required ?body" by code_simp
  have auth: "\<not> authed env_without_tokens" by code_simp
  show ?thesis
    using unauthenticated_request_is_500 [OF req auth, of one_day_lib "busy_but []"] by simp
qed

text \<open>
  C2.  The loop tests the 180 minute cap after it has queried the candidate and recorded
  it.  With the defaults (step 15, working hours 09:00 to 19:00) and a primary slot at
  09:00 that is busy, the candidates at 09:15, ..., 12:00 are followed by the candidate
  at 12:15, which is 195 minutes after the primary start: it is queried (thirteen
  candidate queries after the primary one, fourteen calls) and, being free, returned.
\<close>

theorem cap_is_tested_after_the_candidate:
  "map_option (\<lambda>(res, calls). (res, length calls))
     (availability env_with_tokens one_day_lib (busy_but [hhmm 12 15])
        (body_of [(''calendarId'', ''barber1''), (''date'', ''2024-03-04''),
                  (''time'', ''09:00'')] [])) =
   Some (\<lparr>status = 200, payload = AvailabilityBody False [''12:15'']\<rparr>, 14) \<and>
   diff_minute (hhmm 12 15) (hhmm 9 0) = 195"
  by code_simp

text \<open>
  C5.  As stated the claim fails: the handler reads the limit from the member
  \<^verbatim>\<open>maxSugs\<close>, so a request that gives \<^verbatim>\<open>maxSuggestions\<close> = 1 is scanned with the
  default 3.  For the member the handler reads it holds: a list of suggestions in an
  answer has at most \<open>k\<close> entries when \<^verbatim>\<open>maxSugs\<close> is \<open>k \<ge> 0\<close> and at most 3 when
  it is absent, a scan that holds \<open>maxSugs\<close> suggestions stops without a further query,
  and with a positive step the handler always answers.
\<close>

theorem maxSuggestions_member_is_not_read:
  "map_option fst
     (availability env_with_tokens one_day_lib (busy_but [hhmm 9 15, hhmm 9 30, hhmm 9 45])
        (body_of [(''calendarId'', ''barber1''), (''date'', ''2024-03-04''),
                  (''time'', ''09:00'')] [(''maxSuggestions'', 1)])) =
   Some \<lparr>status = 200,
         payload = AvailabilityBody False [''09:15'', ''09:30'', ''09:45'']\<rparr>"
  by code_simp

theorem maxSugs_bounds_suggestions:
  "(0 < num_or body ''stepMin'' 15 \<longrightarrow> (\<exists>r. availability env dl svc body = Some r)) \<and>
   (\<forall>res calls d sug.
      availability env dl svc body = Some (res, calls) \<longrightarrow>
      payload res = AvailabilityBody d sug \<longrightarrow>
        (\<forall>k. numbers body ''maxSugs'' = Some k \<longrightarrow> 0 \<le> k \<longrightarrow> int (length sug) \<le> k) \<and>
        (numbers body ''maxSugs'' = None \<longrightarrow> length sug \<le> 3)) \<and>
   (maxSugs E \<le> int (length sug0) \<longrightarrow>
      forward_scan E sug0 cursor calls0 = Some (Inr sug0, calls0))"
proof (intro conjI)
  show "0 < num_or body ''stepMin'' 15 \<longrightarrow> (\<exists>r. availability env dl svc body = Some r)"
    using availability_total by blast
next
  show "maxSugs E \<le> int (length sug0) \<longrightarrow>
          forward_scan E sug0 cursor calls0 = Some (Inr sug0, calls0)"
    by (subst forward_scan.simps) simp
next
  let ?E = "request_env env dl svc body"
  let ?q = "FreeBusyQuery (primary_query ?E)"
  have len: "int (length sug) \<le> max 0 (maxSugs ?E)"
    if run: "availability env dl svc body = Some (res, calls)"
      and p: "payload res = AvailabilityBody d sug" for res calls d sug
  proof (cases "has_required body \<and> authed env")
    case False
    then consider "\<not> has_required body" | "has_required body" "\<not> authed env"
      by blast
    then show ?thesis
    proof cases
      case 1
      from availability_missing [OF this, of env dl svc] run p show ?thesis by simp
    next
      case 2
      from availability_unauthed [OF this, of dl svc] run p show ?thesis
        by (simp add: failed_500_def)
    qed
  next
    case True
    show ?thesis
    proof (cases "forward_scan ?E [] (start ?E) [?q]")
      case None
      with True run p show ?thesis
        by (auto simp: availability_authed failed_500_def split: sum.splits if_splits)
    next
      case (Some y)
      from scan_length [OF Some]
      have "\<forall>sug'. fst y = Inr sug' \<longrightarrow> int (length sug') \<le> max 0 (maxSugs ?E)"
        by simp
      with True run p Some show ?thesis
        by (auto simp: availability_authed failed_500_def
              split: sum.splits if_splits prod.splits)
    qed
  qed
  show "\<forall>res calls d sug.
      availability env dl svc body = Some (res, calls) \<longrightarrow>
      payload res = AvailabilityBody d sug \<longrightarrow>
        (\<forall>k. numbers body ''maxSugs'' = Some k \<longrightarrow> 0 \<le> k \<longrightarrow> int (length sug) \<le> k) \<and>
        (numbers body ''maxSugs'' = None \<longrightarrow> length sug \<le> 3)"
  proof (intro allI impI)
    fix res calls d sug
    assume "availability env dl svc body = Some (res, calls)"
      and "payload res = AvailabilityBody d sug"
    from len [OF this]
    show "(\<forall>k. numbers body ''maxSugs'' = Some k \<longrightarrow> 0 \<le> k \<longrightarrow> int (length sug) \<le> k) \<and>
          (numbers body ''maxSugs'' = None \<longrightarrow> length sug \<le> 3)"
      by (auto simp: request_env_def num_or_def)
  qed
qed

theorem maxSugs_bounds_suggestions_witness:
  "int (length [''09:15'']) \<le> 1 \<and>
   availability env_with_tokens one_day_lib (busy_but [hhmm 9 15, hhmm 9 30, hhmm 9 45])
     (body_of [(''calendarId'', ''barber1''), (''date'', ''2024-03-04''),
               (''time'', ''09:00'')] [(''maxSugs'', 1)]) =
   Some (\<lparr>status = 200, payload = AvailabilityBody False [''09:15'']\<rparr>,
         [FreeBusyQuery \<lparr>timeMin = hhmm 9 0, timeMax = hhmm 9 45,
                          timeZone = ''America/Costa_Rica'', items = [''barber1'']\<rparr>,
          FreeBusyQuery \<lparr>timeMin = hhmm 9 15, timeMax = hhmm 10 0,
                          timeZone = ''America/Costa_Rica'', items = [''barber1'']\<rparr>])"
proof -
  let ?body = "body_of [(''calendarId'', ''barber1''), (''date'', ''2024-03-04''),
                  (''time'', ''09:00'')] [(''maxSugs'', 1)]"
  let ?svc = "busy_but [hhmm 9 15, hhmm 9 30, hhmm 9 45]"
  let ?res = "\<lparr>status = 200, payload = AvailabilityBody False [''09:15'']\<rparr>"
  let ?calls = "[FreeBusyQuery \<lparr>timeMin = hhmm 9 0, timeMax = hhmm 9 45,
                          timeZone = ''America/Costa_Rica'', items = [''barber1'']\<rparr>,
          FreeBusyQuery \<lparr>timeMin = hhmm 9 15, timeMax = hhmm 10 0,
                          timeZone = ''America/Costa_Rica'', items = [''barber1'']\<rparr>]"
  have k: "numbers ?body ''maxSugs'' = Some 1" by code_simp
  have ev: "availability env_with_tokens one_day_lib ?svc ?body = Some (?res, ?calls)"
    by code_simp
  have pl: "payload ?res = AvailabilityBody False [''09:15'']" by simp
  from maxSugs_bounds_suggestions
         [of ?body env_with_tokens one_day_lib ?svc,
          THEN conjunct2, THEN conjunct1, THEN spec, THEN spec, THEN spec, THEN spec,
          THEN mp, OF ev, THEN mp, OF pl, THEN conjunct1, THEN spec, THEN mp, OF k]
  have "int (length [''09:15'']) \<le> 1" by simp
  with ev show ?thesis by simp
qed





text \<open>
  C4.  In the loop, a candidate that starts before \<open>workStart\<close> or ends after \<open>workEnd\<close>
  ends the scan where it stands: the suggestions and the calls are returned as they
  are, and no later candidate is looked at.  A candidate that ends exactly at \<open>workEnd\<close>
  is queried, and when its busy list is empty its start is among the suggestions
  returned.
\<close>

theorem boundary_policy:
  fixes E sug cursor calls
  defines "s \<equiv> add_minute cursor (stepMin E)"
  defines "e \<equiv> add_minute (add_minute cursor (stepMin E)) (durationMin E)"
  defines "q \<equiv> \<lparr>timeMin = add_minute cursor (stepMin E),
                  timeMax = add_minute (add_minute cursor (stepMin E)) (durationMin E),
                  timeZone = tz E, items = [calendarId E]\<rparr>"
  shows "(int (length sug) < maxSugs E \<and> (isBefore s (workStart E) \<or> isAfter e (workEnd E))
            \<longrightarrow> forward_scan E sug cursor calls = Some (Inr sug, calls)) \<and>
         (int (length sug) < maxSugs E \<and> 0 < stepMin E \<and> \<not> isBefore s (workStart E) \<and>
          e = workEnd E
            \<longrightarrow> (\<exists>r more. forward_scan E sug cursor calls =
                              Some (r, calls @ FreeBusyQuery q # more) \<and>
                  (busy_of (freebusy_query (cal E) (length calls) q) (calendarId E) = Inr []
                     \<longrightarrow> (\<forall>sug'. r = Inr sug'
                            \<longrightarrow> (\<exists>rest. sug' = sug @ format_HHmm (lib E) (tz E) s # rest)))))"
proof (intro conjI impI)
  assume "int (length sug) < maxSugs E \<and> (isBefore s (workStart E) \<or> isAfter e (workEnd E))"
  then have "int (length sug) < maxSugs E" "out_of_hours E cursor"
    by (simp_all add: out_of_hours_def s_def e_def)
  then show "forward_scan E sug cursor calls = Some (Inr sug, calls)"
    by (cases rule: scan_cases [where E = E and sug = sug and cursor = cursor
                                 and calls = calls]) simp_all
next
  assume a: "int (length sug) < maxSugs E \<and> 0 < stepMin E \<and> \<not> isBefore s (workStart E) \<and>
          e = workEnd E"
  then have lt: "int (length sug) < maxSugs E" and pos: "0 < stepMin E"
    and inb: "\<not> out_of_hours E cursor"
    by (simp_all add: out_of_hours_def s_def e_def isAfter_def)
  have q: "q = candidate_query E cursor"
    by (simp add: q_def candidate_query_def)
  let ?calls = "calls @ [FreeBusyQuery q]"
  let ?free = "busy_of (freebusy_query (cal E) (length calls) q) (calendarId E) = Inr []"
  let ?goal = "\<lambda>r cs. (\<exists>more. cs = calls @ FreeBusyQuery q # more) \<and>
      (?free \<longrightarrow> (\<forall>sug'. r = Inr sug'
          \<longrightarrow> (\<exists>rest. sug' = sug @ format_HHmm (lib E) (tz E) s # rest)))"
  have "\<exists>r cs. forward_scan E sug cursor calls = Some (r, cs) \<and> ?goal r cs"
  proof (cases rule: scan_cases [where E = E and sug = sug and cursor = cursor
                                 and calls = calls])
    case finished
    with lt show ?thesis by simp
  next
    case outside
    with inb show ?thesis by simp
  next
    case (failed err)
    then show ?thesis by (simp add: q)
  next
    case (capped b2)
    from capped(3,5) show ?thesis
      by (auto simp: q pushed_def s_def)
  next
    case (continue b2)
    from forward_scan_terminates [OF pos] obtain y where
      y: "forward_scan E (pushed E b2 sug cursor) (add_minute cursor (stepMin E))
            (calls @ [FreeBusyQuery (candidate_query E cursor)]) = Some y"
      by blast
    from scan_calls_extend [OF y] obtain more where
      more: "snd y = (calls @ [FreeBusyQuery (candidate_query E cursor)]) @ more"
      by blast
    from scan_sug_extend [OF y] have
      ext: "\<forall>sug'. fst y = Inr sug' \<longrightarrow> (\<exists>rest. sug' = pushed E b2 sug cursor @ rest)" .
    have "?goal (fst y) (snd y)"
    proof (intro conjI impI allI)
      show "\<exists>more. snd y = calls @ FreeBusyQuery q # more"
        using more by (simp add: q)
    next
      fix sug' assume free: ?free and r: "fst y = Inr sug'"
      from free continue(3) have "b2 = []" by (simp add: q)
      then have "pushed E b2 sug cursor = sug @ [format_HHmm (lib E) (tz E) s]"
        by (simp add: pushed_def s_def)
      with ext r show "\<exists>rest. sug' = sug @ format_HHmm (lib E) (tz E) s # rest"
        by auto
    qed
    moreover have "forward_scan E sug cursor calls = Some (fst y, snd y)"
      using continue(5) y by simp
    ultimately show ?thesis by blast
  qed
  then show "\<exists>r more. forward_scan E sug cursor calls =
                              Some (r, calls @ FreeBusyQuery q # more) \<and>
                  (busy_of (freebusy_query (cal E) (length calls) q) (calendarId E) = Inr []
                     \<longrightarrow> (\<forall>sug'. r = Inr sug'
                            \<longrightarrow> (\<exists>rest. sug' = sug @ format_HHmm (lib E) (tz E) s # rest)))"
    by blast
qed


theorem boundary_policy_witness:
  "forward_scan
     (request_env env_with_tokens one_day_lib (busy_but [hhmm 18 15])
        (body_of [(''calendarId'', ''barber1''), (''date'', ''2024-03-04''),
                  (''time'', ''17:30'')] [(''stepMin'', 45)]))
     [] (hhmm 18 15) [] = Some (Inr [], []) \<and>
   (\<exists>more rest.
      forward_scan
        (request_env env_with_tokens one_day_lib (busy_but [hhmm 18 15])
           (body_of [(''calendarId'', ''barber1''), (''date'', ''2024-03-04''),
                     (''time'', ''17:30'')] [(''stepMin'', 45)]))
        [] (hhmm 17 30) [] =
      Some (Inr (''18:15'' # rest),
            FreeBusyQuery \<lparr>timeMin = hhmm 18 15, timeMax = hhmm 19 0,
                            timeZone = ''America/Costa_Rica'', items = [''barber1'']\<rparr>
              # more))"
proof -
  let ?E = "request_env env_with_tokens one_day_lib (busy_but [hhmm 18 15])
        (body_of [(''calendarId'', ''barber1''), (''date'', ''2024-03-04''),
                  (''time'', ''17:30'')] [(''stepMin'', 45)])"
  let ?q = "\<lparr>timeMin = add_minute (hhmm 17 30) (stepMin ?E),
             timeMax = add_minute (add_minute (hhmm 17 30) (stepMin ?E)) (durationMin ?E),
             timeZone = tz ?E, items = [calendarId ?E]\<rparr>"
  note bp = boundary_policy [where E = ?E and sug = "[]" and calls = "[]"]
  have late: "int (length ([] :: string list)) < maxSugs ?E \<and>
      (isBefore (add_minute (hhmm 18 15) (stepMin ?E)) (workStart ?E) \<or>
       isAfter (add_minute (add_minute (hhmm 18 15) (stepMin ?E)) (durationMin ?E))
         (workEnd ?E))"
    by code_simp
  from bp [where cursor = "hhmm 18 15", THEN conjunct1, THEN mp, OF late]
  have one: "forward_scan ?E [] (hhmm 18 15) [] = Some (Inr [], [])" .
  have exact: "int (length ([] :: string list)) < maxSugs ?E \<and> 0 < stepMin ?E \<and>
      \<not> isBefore (add_minute (hhmm 17 30) (stepMin ?E)) (workStart ?E) \<and>
      add_minute (add_minute (hhmm 17 30) (stepMin ?E)) (durationMin ?E) = workEnd ?E"
    by code_simp
  have free: "busy_of (freebusy_query (cal ?E) (length ([] :: call list)) ?q)
                (calendarId ?E) = Inr []"
    by code_simp
  have ev: "map_option fst (forward_scan ?E [] (hhmm 17 30) []) = Some (Inr [''18:15''])"
    by code_simp
  have q: "?q = \<lparr>timeMin = hhmm 18 15, timeMax = hhmm 19 0,
                  timeZone = ''America/Costa_Rica'', items = [''barber1'']\<rparr>"
    by code_simp
  have fmt: "format_HHmm (lib ?E) (tz ?E) (add_minute (hhmm 17 30) (stepMin ?E)) = ''18:15''"
    by code_simp
  from bp [where cursor = "hhmm 17 30", THEN conjunct2, THEN mp, OF exact]
  obtain r more where run: "forward_scan ?E [] (hhmm 17 30) [] =
        Some (r, [] @ FreeBusyQuery ?q # more)"
    and acc: "busy_of (freebusy_query (cal ?E) (length ([] :: call list)) ?q)
                (calendarId ?E) = Inr []
       \<longrightarrow> (\<forall>sug'. r = Inr sug' \<longrightarrow>
              (\<exists>rest. sug' = [] @ format_HHmm (lib ?E) (tz ?E)
                                   (add_minute (hhmm 17 30) (stepMin ?E)) # rest))"
    by blast
  from run ev have r: "r = Inr [''18:15'']" by simp
  from acc [THEN mp, OF free, THEN spec, THEN mp, OF r] obtain rest
    where "[''18:15''] = [] @ format_HHmm (lib ?E) (tz ?E)
                                   (add_minute (hhmm 17 30) (stepMin ?E)) # rest"
    by blast
  with run r have "forward_scan ?E [] (hhmm 17 30) [] =
      Some (Inr (''18:15'' # rest), FreeBusyQuery ?q # more)"
    by (simp add: fmt)
  then have "\<exists>more rest. forward_scan ?E [] (hhmm 17 30) [] =
      Some (Inr (''18:15'' # rest), FreeBusyQuery ?q # more)"
    by blast
  with one show ?thesis unfolding q by simp
qed

text \<open>
  C8.  No partial result on failure.  Whenever the handler has answered after issuing a
  free/busy query that failed (for the primary slot or for a candidate), the answer is
  status 500 with \<^verbatim>\<open>{error: "availability_failed"}\<close>, never a list of suggestions; and
  with a positive step the handler always answers.
\<close>

theorem query_failure_aborts_request:
  "(0 < num_or body ''stepMin'' 15 \<longrightarrow> (\<exists>r. availability env dl svc body = Some r)) \<and>
   (\<forall>res calls. availability env dl svc body = Some (res, calls) \<longrightarrow>
      (\<exists>i q. i < length calls \<and> calls ! i = FreeBusyQuery q \<and>
             query_fails (freebusy_query svc i q)) \<longrightarrow>
      res = \<lparr>status = 500, payload = ErrorBody ''availability_failed''\<rparr>)"
proof (intro conjI impI allI)
  assume "0 < num_or body ''stepMin'' 15"
  then show "\<exists>r. availability env dl svc body = Some r"
    by (rule availability_total)
next
  fix res calls
  assume run: "availability env dl svc body = Some (res, calls)"
    and "\<exists>i q. i < length calls \<and> calls ! i = FreeBusyQuery q \<and>
             query_fails (freebusy_query svc i q)"
  then obtain i q where i: "i < length calls" "calls ! i = FreeBusyQuery q"
    and bad: "query_fails (freebusy_query svc i q)"
    by blast
  let ?E = "request_env env dl svc body"
  let ?q = "primary_query ?E"
  let ?r = "busy_of (freebusy_query svc 0 ?q) (calendarId ?E)"
  have cal: "cal ?E = svc" by (simp add: request_env_def)
  show "res = \<lparr>status = 500, payload = ErrorBody ''availability_failed''\<rparr>"
  proof (cases "has_required body")
    case False
    from availability_missing [OF this, of env dl svc] run i show ?thesis by simp
  next
    case req: True
    show ?thesis
    proof (cases "authed env")
      case False
      from availability_unauthed [OF req this, of dl svc] run show ?thesis
        by (simp add: failed_500_def)
    next
      case True
      note unfold = availability_authed [OF req True, of dl svc]
      show ?thesis
      proof (cases ?r)
        case (Inl e)
        with unfold run show ?thesis by (simp add: failed_500_def)
      next
        case (Inr busy)
        then have ok0: "\<not> query_fails (freebusy_query svc 0 ?q)"
          using busy_of_fails [of "freebusy_query svc 0 ?q" "calendarId ?E"] by auto
        show ?thesis
        proof (cases "busy = []")
          case True
          with unfold run Inr have "calls = [FreeBusyQuery ?q]" by simp
          with i have "i = 0" "q = ?q" by simp_all
          with bad ok0 show ?thesis by simp
        next
          case False
          show ?thesis
          proof (cases "forward_scan ?E [] (start ?E) [FreeBusyQuery ?q]")
            case None
            with unfold run Inr False show ?thesis by simp
          next
            case (Some y)
            obtain r cs where y: "y = (r, cs)" by (cases y)
            show ?thesis
            proof (cases r)
              case (Inl e)
              with unfold run Inr False Some y show ?thesis by (simp add: failed_500_def)
            next
              case r: (Inr sug)
              with unfold run Inr False Some y have cs: "calls = cs" by simp
              from scan_calls_extend [OF Some] y cs obtain more
                where more: "calls = [FreeBusyQuery ?q] @ more" by auto
              have "\<not> query_fails (freebusy_query svc i q)"
              proof (cases "i = 0")
                case True
                with more i have "q = ?q" by simp
                with ok0 True show ?thesis by simp
              next
                case False
                then have "length [FreeBusyQuery ?q] \<le> i" by simp
                with scan_no_failure [OF Some] y r cs i cal show ?thesis
                  by simp
              qed
              with bad show ?thesis by simp
            qed
          qed
        qed
      qed
    qed
  qed
qed

theorem query_failure_aborts_request_witness:
  "availability env_with_tokens one_day_lib (rejecting_at [hhmm 9 30] [hhmm 9 15])
     (body_of [(''calendarId'', ''barber1''), (''date'', ''2024-03-04''),
               (''time'', ''09:00'')] []) =
   Some (\<lparr>status = 500, payload = ErrorBody ''availability_failed''\<rparr>,
         [FreeBusyQuery \<lparr>timeMin = hhmm 9 0, timeMax = hhmm 9 45,
                          timeZone = ''America/Costa_Rica'', items = [''barber1'']\<rparr>,
          FreeBusyQuery \<lparr>timeMin = hhmm 9 15, timeMax = hhmm 10 0,
                          timeZone = ''America/Costa_Rica'', items = [''barber1'']\<rparr>,
          FreeBusyQuery \<lparr>timeMin = hhmm 9 30, timeMax = hhmm 10 15,
                          timeZone = ''America/Costa_Rica'', items = [''barber1'']\<rparr>])"
proof -
  let ?body = "body_of [(''calendarId'', ''barber1''), (''date'', ''2024-03-04''),
               (''time'', ''09:00'')] []"
  let ?svc = "rejecting_at [hhmm 9 30] [hhmm 9 15]"
  let ?q2 = "\<lparr>timeMin = hhmm 9 30, timeMax = hhmm 10 15,
               timeZone = ''America/Costa_Rica'', items = [''barber1'']\<rparr>"
  let ?calls = "[FreeBusyQuery \<lparr>timeMin = hhmm 9 0, timeMax = hhmm 9 45,
                          timeZone = ''America/Costa_Rica'', items = [''barber1'']\<rparr>,
          FreeBusyQuery \<lparr>timeMin = hhmm 9 15, timeMax = hhmm 10 0,
                          timeZone = ''America/Costa_Rica'', items = [''barber1'']\<rparr>,
          FreeBusyQuery ?q2]"
  note inst = query_failure_aborts_request [of ?body env_with_tokens one_day_lib ?svc]
  have step: "0 < num_or ?body ''stepMin'' 15" by code_simp
  from inst [THEN conjunct1, THEN mp, OF step] obtain res calls
    where run: "availability env_with_tokens one_day_lib ?svc ?body = Some (res, calls)"
    by (metis surj_pair)
  have "map_option snd (availability env_with_tokens one_day_lib ?svc ?body) = Some ?calls"
    by code_simp
  with run have calls: "calls = ?calls" by simp
  have "2 < length ?calls \<and> ?calls ! 2 = FreeBusyQuery ?q2 \<and>
        query_fails (freebusy_query ?svc 2 ?q2)"
    by code_simp
  then have "\<exists>i q. i < length calls \<and> calls ! i = FreeBusyQuery q \<and>
             query_fails (freebusy_query ?svc i q)"
    unfolding calls by blast
  from inst [THEN conjunct2, THEN spec, THEN spec, THEN mp, OF run, THEN mp, OF this]
  have "res = \<lparr>status = 500, payload = ErrorBody ''availability_failed''\<rparr>" .
  with run calls show ?thesis by simp
qed

text \<open>
  C9.  /book does not look at availability.  Its calls never contain a free/busy query;
  its answer is the same for two calendar services that insert events alike, whatever
  they report as busy; and when the insert call resolves, the answer is
  \<^verbatim>\<open>{ok: true, eventId}\<close> with the id of the created event.
\<close>

theorem book_ignores_busy_state:
  "(\<forall>c\<in>set (snd (book env dl svc body)). \<forall>q. c \<noteq> FreeBusyQuery q) \<and>
   (events_insert svc' = events_insert svc \<longrightarrow> book env dl svc' body = book env dl svc body) \<and>
   (has_required body \<and> authed env \<and>
    events_insert svc 0 (booking_event env dl body) = InsertResolved eventId
      \<longrightarrow> book env dl svc body =
            (\<lparr>status = 200, payload = BookOk eventId\<rparr>,
             [EventsInsert (booking_event env dl body)]))"
proof (intro conjI)
  show "\<forall>c\<in>set (snd (book env dl svc body)). \<forall>q. c \<noteq> FreeBusyQuery q"
  proof (cases "has_required body")
    case False
    then show ?thesis by (simp add: book_missing)
  next
    case req: True
    show ?thesis
    proof (cases "authed env")
      case False
      with req show ?thesis by (simp add: book_unauthed)
    next
      case True
      with req show ?thesis by (simp add: book_authed split: insert_reply.splits)
    qed
  qed
next
  show "events_insert svc' = events_insert svc \<longrightarrow>
          book env dl svc' body = book env dl svc body"
  proof (cases "has_required body")
    case False
    then show ?thesis by (simp add: book_missing)
  next
    case req: True
    show ?thesis
    proof (cases "authed env")
      case False
      with req show ?thesis by (simp add: book_unauthed)
    next
      case True
      with req show ?thesis by (simp add: book_authed)
    qed
  qed
next
  show "has_required body \<and> authed env \<and>
    events_insert svc 0 (booking_event env dl body) = InsertResolved eventId
      \<longrightarrow> book env dl svc body =
            (\<lparr>status = 200, payload = BookOk eventId\<rparr>,
             [EventsInsert (booking_event env dl body)])"
    by (simp add: book_authed)
qed

theorem book_ignores_busy_state_witness:
  "book env_with_tokens one_day_lib (busy_but [])
     (body_of [(''calendarId'', ''barber1''), (''date'', ''2024-03-04''),
               (''time'', ''09:00''), (''nombre'', ''Ana''), (''servicio'', ''Corte'')] []) =
   (\<lparr>status = 200, payload = BookOk (Some ''evt1'')\<rparr>,
    [EventsInsert
       (booking_event env_with_tokens one_day_lib
          (body_of [(''calendarId'', ''barber1''), (''date'', ''2024-03-04''),
                    (''time'', ''09:00''), (''nombre'', ''Ana''), (''servicio'', ''Corte'')]
             []))]) \<and>
   summary (booking_event env_with_tokens one_day_lib
          (body_of [(''calendarId'', ''barber1''), (''date'', ''2024-03-04''),
                    (''time'', ''09:00''), (''nombre'', ''Ana''), (''servicio'', ''Corte'')]
             [])) = ''Corte - Ana'' \<and>
   map_option fst
     (availability env_with_tokens one_day_lib (busy_but [])
        (body_of [(''calendarId'', ''barber1''), (''date'', ''2024-03-04''),
               (''time'', ''09:00''), (''nombre'', ''Ana''), (''servicio'', ''Corte'')] [])) =
   Some \<lparr>status = 200, payload = AvailabilityBody False []\<rparr>"
proof -
  let ?body = "body_of [(''calendarId'', ''barber1''), (''date'', ''2024-03-04''),
               (''time'', ''09:00''), (''nombre'', ''Ana''), (''servicio'', ''Corte'')] []"
  have pre: "has_required ?body \<and> authed env_with_tokens \<and>
      events_insert (busy_but []) 0 (booking_event env_with_tokens one_day_lib ?body) =
        InsertResolved (Some ''evt1'')"
    by code_simp
  have s: "summary (booking_event env_with_tokens one_day_lib ?body) = ''Corte - Ana''"
    by code_simp
  have busy: "map_option fst (availability env_with_tokens one_day_lib (busy_but []) ?body) =
      Some \<lparr>status = 200, payload = AvailabilityBody False []\<rparr>"
    by code_simp
  from book_ignores_busy_state
         [of env_with_tokens one_day_lib "busy_but []" ?body "busy_but []" "Some ''evt1''",
          THEN conjunct2, THEN conjunct2, THEN mp, OF pre] s busy
  show ?thesis by simp
qed

end
